theory Spec2Isabelle
  imports Main
begin

section \<open>The Query object of live/query.py\<close>

text \<open>
  The module keeps one \<open>Query\<close> object (a singleton). Its attributes are the fields of
  the record \<open>query_state\<close>; every method takes the state and returns the new one.
  A method that can raise returns a pair: the exception or the value, and the state as
  the raise or the return leaves it (Python does not undo the assignments made before
  a raise).
\<close>

subsection \<open>Exceptions\<close>

datatype exn_class = LiveConnectionError | IndexError | KeyError | TypeError | OtherError string

datatype exn = Exn (exn_class: exn_class) (exn_message: string)

definition send_failure_message :: string where
  "send_failure_message =
     ''Couldn't send message to Live (is LiveOSC present and activated?)''"

definition timeout_message :: string where
  "timeout_message =
     ''Timed out waiting for response from LiveOSC. Is Live running and LiveOSC installed?''"

subsection \<open>Callbacks\<close>

text \<open>
  A callback is a Python callable handed to the object by its user. The model keeps what
  the methods of \<open>Query\<close> can observe of it: an identity (\<open>cb_id\<close>, under which its
  invocations are recorded), the number of parameters \<open>inspect.signature\<close> reports
  (\<open>None\<close> when \<open>inspect.signature\<close> raises), the argument names
  \<open>inspect.getargspec\<close> reports in the fallback (\<open>None\<close> when that raises too), and
  whether a call with given arguments raises (\<open>cb_body\<close>: \<open>None\<close> is a normal return).
  A callback is taken not to call back into the \<open>Query\<close> object.
\<close>

datatype 'v callback =
  Callback (cb_id: nat) (cb_signature: "nat option") (cb_argspec: "string list option")
    (cb_body: "'v list \<Rightarrow> exn option")

subsection \<open>State\<close>

datatype backend = Liblo | Pythonosc

text \<open>What is handed to the transport: the argument tuple, or (pythonosc, one argument)
  the argument itself.\<close>

datatype 'v payload = Args "'v list" | Single 'v

datatype 'v log_entry =
    Log_output string "'v list"
  | Log_during_cmd string "'v payload"
  | Log_timeout string
  | Log_input string "'v list"

text \<open>
  \<open>threading.Event\<close> objects live in a store: \<open>events\<close> gives the flag of each event
  and \<open>next_event\<close> is the next unused reference, so that two events created by two
  calls are two objects even when they are stored under the same key.
  \<open>sent\<close>, \<open>calls\<close> and \<open>debug_log\<close> record the effects outside the object: the
  messages handed to the transport, the callback invocations (identity and arguments) and
  the lines given to \<open>log_debug\<close>.
\<close>

record 'v query_state =
  osc_backend :: backend
  beat_callback :: "'v callback option"
  startup_callback :: "'v callback option"
  handlers :: "string \<rightharpoonup> 'v callback list"
  osc_server_events :: "string \<rightharpoonup> nat"
  query_address :: "string option"
  query_rv :: "'v list"
  events :: "nat \<Rightarrow> bool"
  next_event :: nat
  sent :: "(string \<times> 'v payload) list"
  calls :: "(nat \<times> 'v list) list"
  debug_log :: "'v log_entry list"

type_synonym ('v, 'a) result = "(exn + 'a) \<times> 'v query_state"

text \<open>\<open>Query.__init__\<close>, for the backend chosen at import.\<close>

definition init :: "backend \<Rightarrow> 'v query_state" where
  "init b =
     \<lparr> osc_backend = b, beat_callback = None, startup_callback = None,
       handlers = Map.empty, osc_server_events = Map.empty,
       query_address = None, query_rv = [],
       events = (\<lambda>_. False), next_event = 0,
       sent = [], calls = [], debug_log = [] \<rparr>"

text \<open>\<open>log_debug\<close> belongs to \<open>LoggingObject\<close> (module \<open>object\<close>); it is taken to
  record the line and nothing else.\<close>

definition log_debug :: "'v query_state \<Rightarrow> 'v log_entry \<Rightarrow> 'v query_state" where
  "log_debug s l = s\<lparr>debug_log := debug_log s @ [l]\<rparr>"

subsection \<open>cmd\<close>

definition send_payload :: "backend \<Rightarrow> 'v list \<Rightarrow> 'v payload" where
  "send_payload b args =
     (case b of
        Liblo \<Rightarrow> Args args
      | Pythonosc \<Rightarrow> (case args of [x] \<Rightarrow> Single x | _ \<Rightarrow> Args args))"

text \<open>\<open>send_fails\<close> says whether the transport's send raises.\<close>

definition cmd :: "'v query_state \<Rightarrow> bool \<Rightarrow> string \<Rightarrow> 'v list \<Rightarrow> ('v, unit) result" where
  "cmd s send_fails msg args =
     (let s1 = log_debug s (Log_output msg args);
          p = send_payload (osc_backend s1) args
      in if send_fails
         then (Inl (Exn LiveConnectionError send_failure_message),
               log_debug s1 (Log_during_cmd msg p))
         else (Inr (), s1\<lparr>sent := sent s1 @ [(msg, p)]\<rparr>))"

subsection \<open>handler and add_handler\<close>

text \<open>One call of a callback: the invocation is recorded, then the callback returns or
  raises.\<close>

definition call :: "'v query_state \<Rightarrow> 'v callback \<Rightarrow> 'v list \<Rightarrow> ('v, unit) result" where
  "call s h args =
     (let s1 = s\<lparr>calls := calls s @ [(cb_id h, args)]\<rparr>
      in case cb_body h args of Some e \<Rightarrow> (Inl e, s1) | None \<Rightarrow> (Inr (), s1))"

text \<open>The loop \<open>for handler in self.handlers[address]: handler(*data)\<close>.\<close>

fun run_handlers :: "'v query_state \<Rightarrow> 'v callback list \<Rightarrow> 'v list \<Rightarrow> ('v, unit) result" where
  "run_handlers s [] data = (Inr (), s)"
| "run_handlers s (h # hs) data =
     (case call s h data of
        (Inl e, s1) \<Rightarrow> (Inl e, s1)
      | (Inr _, s1) \<Rightarrow> run_handlers s1 hs data)"

text \<open>The computation of \<open>has_arg\<close> for the beat callback.\<close>

definition has_arg :: "'v callback \<Rightarrow> exn + bool" where
  "has_arg cb =
     (case cb_signature cb of
        Some n \<Rightarrow> Inr (n > 0)
      | None \<Rightarrow>
          (case cb_argspec cb of
             Some as \<Rightarrow> Inr (length as > 0 \<and> last as \<noteq> ''self'')
           | None \<Rightarrow> Inl (Exn TypeError ''unsupported callable'')))"

definition handler :: "'v query_state \<Rightarrow> string \<Rightarrow> 'v list \<Rightarrow> ('v, unit) result" where
  "handler s address data =
     (let s0 = log_debug s (Log_input address data)
      in case (case handlers s0 address of
                 None \<Rightarrow> (Inr (), s0)
               | Some hs \<Rightarrow> run_handlers s0 hs data) of
           (Inl e, s1) \<Rightarrow> (Inl e, s1)
         | (Inr _, s1) \<Rightarrow>
             if Some address = query_address s1 then
               (let s2 = s1\<lparr>query_rv := query_rv s1 @ data\<rparr>
                in case osc_server_events s2 address of
                     None \<Rightarrow> (Inl (Exn KeyError address), s2)
                   | Some ev \<Rightarrow> (Inr (), s2\<lparr>events := (events s2)(ev := True)\<rparr>))
             else if address = ''/live/beat'' then
               (case beat_callback s1 of
                  None \<Rightarrow> (Inr (), s1)
                | Some cb \<Rightarrow>
                    (case has_arg cb of
                       Inl e \<Rightarrow> (Inl e, s1)
                     | Inr True \<Rightarrow>
                         (case data of
                            [] \<Rightarrow> (Inl (Exn IndexError ''list index out of range''), s1)
                          | x # _ \<Rightarrow> call s1 cb [x])
                     | Inr False \<Rightarrow> call s1 cb []))
             else if address = ''/remix/oscserver/startup'' then
               (case startup_callback s1 of
                  None \<Rightarrow> (Inr (), s1)
                | Some cb \<Rightarrow> call s1 cb [])
             else (Inr (), s1))"

definition add_handler :: "'v query_state \<Rightarrow> string \<Rightarrow> 'v callback \<Rightarrow> 'v query_state" where
  "add_handler s address h =
     (let s1 = (if address \<in> dom (handlers s) then s
                else s\<lparr>handlers := (handlers s)(address \<mapsto> [])\<rparr>)
      in s1\<lparr>handlers := (handlers s1)(address \<mapsto> the (handlers s1 address) @ [h])\<rparr>)"

subsection \<open>query\<close>

text \<open>The keyword argument \<open>response_address\<close>: absent, \<open>None\<close> and the empty string
  all give the request address.\<close>

definition effective_response_address :: "string \<Rightarrow> string option \<Rightarrow> string" where
  "effective_response_address msg kw =
     (case kw of None \<Rightarrow> msg | Some r \<Rightarrow> (if r \<noteq> [] then r else msg))"

text \<open>
  \<open>query\<close> blocks in \<open>Event.wait\<close> while the receiver thread runs \<open>handler\<close>, so it is
  modelled in two parts. \<open>query_send\<close> is the method up to and including the call of
  \<open>cmd\<close>; it returns the response address. \<open>query_wait\<close> is the rest, run on the state
  the caller finds when \<open>wait\<close> returns: \<open>wait\<close> gives the flag of the event it was
  called on, which is set if and only if the event was signalled in the time window
  (a flag is never cleared). The time itself is not modelled.
\<close>

definition query_send ::
  "'v query_state \<Rightarrow> bool \<Rightarrow> string \<Rightarrow> 'v list \<Rightarrow> string option \<Rightarrow> ('v, string) result" where
  "query_send s send_fails msg args kw =
     (let response_address = effective_response_address msg kw;
          ev = next_event s;
          s1 = s\<lparr>events := (events s)(ev := False), next_event := Suc ev,
                 osc_server_events := (osc_server_events s)(response_address \<mapsto> ev)\<rparr>;
          s2 = s1\<lparr>query_address := Some response_address, query_rv := []\<rparr>
      in case cmd s2 send_fails msg args of
           (Inl e, s3) \<Rightarrow> (Inl e, s3)
         | (Inr _, s3) \<Rightarrow> (Inr response_address, s3))"

definition query_wait :: "'v query_state \<Rightarrow> string \<Rightarrow> nat \<Rightarrow> ('v, 'v list) result" where
  "query_wait s msg ev =
     (if \<not> events s ev
      then (Inl (Exn LiveConnectionError timeout_message), log_debug s (Log_timeout msg))
      else (Inr (query_rv s), s))"

text \<open>The receiver thread handling the messages \<open>inbound\<close> one after the other. An
  exception that leaves \<open>handler\<close> stays on the receiver thread.\<close>

fun dispatch_all :: "'v query_state \<Rightarrow> (string \<times> 'v list) list \<Rightarrow> 'v query_state" where
  "dispatch_all s [] = s"
| "dispatch_all s ((address, data) # ms) = dispatch_all (snd (handler s address data)) ms"

text \<open>A whole call of \<open>query\<close>, where \<open>inbound\<close> are the messages the receiver thread
  handles while the caller is blocked in \<open>wait\<close>.\<close>

definition query ::
  "'v query_state \<Rightarrow> bool \<Rightarrow> string \<Rightarrow> 'v list \<Rightarrow> string option \<Rightarrow> (string \<times> 'v list) list
     \<Rightarrow> ('v, 'v list) result" where
  "query s send_fails msg args kw inbound =
     (case query_send s send_fails msg args kw of
        (Inl e, s1) \<Rightarrow> (Inl e, s1)
      | (Inr response_address, s1) \<Rightarrow>
          (case osc_server_events s1 response_address of
             None \<Rightarrow> (Inl (Exn KeyError response_address), s1)
           | Some ev \<Rightarrow> query_wait (dispatch_all s1 inbound) msg ev))"

subsection \<open>Auxiliary notions for the statements\<close>

text \<open>The callbacks registered for an address (none when the address has no entry), and
  the invocation records of a list of callbacks called in order with the same arguments.\<close>

definition registered :: "'v query_state \<Rightarrow> string \<Rightarrow> 'v callback list" where
  "registered s address = (case handlers s address of None \<Rightarrow> [] | Some hs \<Rightarrow> hs)"

definition invocations :: "'v callback list \<Rightarrow> 'v list \<Rightarrow> (nat \<times> 'v list) list" where
  "invocations hs data = map (\<lambda>h. (cb_id h, data)) hs"

subsection \<open>Interleavings\<close>

text \<open>
  The object is shared by the threads that receive messages and by the threads that call
  its methods: with liblo one thread runs \<open>osc_server_read\<close>, with pythonosc the
  \<open>ThreadingOSCUDPServer\<close> starts a thread for each message. No method takes a lock, so
  a call of \<open>handler\<close> or of \<open>query\<close> is not atomic: another thread may run between two
  of its statements. For the interleavings, \<open>handler\<close> is cut into its parts:
  \<open>handler_push\<close> is the log line and the loop over the registered handlers (lines
  261 to 268), \<open>handler_special\<close> the two special addresses (lines 279 to 304); the
  statements between them, lines 274 to 276, are steps of their own.
\<close>

definition handler_push :: "'v query_state \<Rightarrow> string \<Rightarrow> 'v list \<Rightarrow> ('v, unit) result" where
  "handler_push s address data =
     (let s0 = log_debug s (Log_input address data)
      in case handlers s0 address of
           None \<Rightarrow> (Inr (), s0)
         | Some hs \<Rightarrow> run_handlers s0 hs data)"

definition handler_special :: "'v query_state \<Rightarrow> string \<Rightarrow> 'v list \<Rightarrow> ('v, unit) result" where
  "handler_special s address data =
     (if address = ''/live/beat'' then
        (case beat_callback s of
           None \<Rightarrow> (Inr (), s)
         | Some cb \<Rightarrow>
             (case has_arg cb of
                Inl e \<Rightarrow> (Inl e, s)
              | Inr True \<Rightarrow>
                  (case data of
                     [] \<Rightarrow> (Inl (Exn IndexError ''list index out of range''), s)
                   | x # _ \<Rightarrow> call s cb [x])
              | Inr False \<Rightarrow> call s cb []))
      else if address = ''/remix/oscserver/startup'' then
        (case startup_callback s of
           None \<Rightarrow> (Inr (), s)
         | Some cb \<Rightarrow> call s cb [])
      else (Inr (), s))"

text \<open>
  A call in flight is a frame: the line of the source it executes next, with its local
  variables. \<open>Handler_274 address data\<close> is a call of \<open>handler\<close> that has run its push
  handlers and is about to test \<open>address == self.query_address\<close>; \<open>Handler_275\<close> is
  about to execute \<open>self.query_rv += data\<close>, \<open>Handler_276\<close> is about to look up
  \<open>self.osc_server_events[address]\<close>, \<open>Handler_set ev\<close> has found the event \<open>ev\<close>
  there and is about to call its \<open>set()\<close>, \<open>Handler_279\<close> is about to test the
  special addresses. \<open>Query_225 send_fails msg args response_address\<close> is a call of
  \<open>query\<close> that has stored its new event (line 219) and is about to assign
  \<open>self.query_address\<close>; \<open>Query_226\<close> is about to reset \<open>self.query_rv\<close>,
  \<open>Query_227\<close> to call \<open>cmd\<close>, \<open>Query_233\<close> to look up its event and wait on
  it; \<open>Query_waiting msg ev\<close> is blocked in \<open>wait\<close> on the event \<open>ev\<close>. A call
  that has returned or raised keeps its outcome.
\<close>

datatype 'v frame =
    Handler_274 string "'v list"
  | Handler_275 string "'v list"
  | Handler_276 string
  | Handler_set nat
  | Handler_279 string "'v list"
  | Handler_done "exn + unit"
  | Query_225 bool string "'v list" string
  | Query_226 bool string "'v list" string
  | Query_227 bool string "'v list" string
  | Query_233 string string
  | Query_waiting string nat
  | Query_done "exn + 'v list"

text \<open>One frame executes its next statement. For a frame blocked in \<open>wait\<close> this is
  the return of \<open>wait\<close>, as in \<open>query_wait\<close>.\<close>

fun resume :: "'v query_state \<Rightarrow> 'v frame \<Rightarrow> 'v query_state \<times> 'v frame" where
  "resume s (Handler_274 address data) =
     (s, if Some address = query_address s then Handler_275 address data
         else Handler_279 address data)"
| "resume s (Handler_275 address data) =
     (s\<lparr>query_rv := query_rv s @ data\<rparr>, Handler_276 address)"
| "resume s (Handler_276 address) =
     (case osc_server_events s address of
        None \<Rightarrow> (s, Handler_done (Inl (Exn KeyError address)))
      | Some ev \<Rightarrow> (s, Handler_set ev))"
| "resume s (Handler_set ev) =
     (s\<lparr>events := (events s)(ev := True)\<rparr>, Handler_done (Inr ()))"
| "resume s (Handler_279 address data) =
     (case handler_special s address data of (r, s1) \<Rightarrow> (s1, Handler_done r))"
| "resume s (Handler_done r) = (s, Handler_done r)"
| "resume s (Query_225 send_fails msg args response_address) =
     (s\<lparr>query_address := Some response_address\<rparr>,
      Query_226 send_fails msg args response_address)"
| "resume s (Query_226 send_fails msg args response_address) =
     (s\<lparr>query_rv := []\<rparr>, Query_227 send_fails msg args response_address)"
| "resume s (Query_227 send_fails msg args response_address) =
     (case cmd s send_fails msg args of
        (Inl e, s1) \<Rightarrow> (s1, Query_done (Inl e))
      | (Inr _, s1) \<Rightarrow> (s1, Query_233 msg response_address))"
| "resume s (Query_233 msg response_address) =
     (case osc_server_events s response_address of
        None \<Rightarrow> (s, Query_done (Inl (Exn KeyError response_address)))
      | Some ev \<Rightarrow> (s, Query_waiting msg ev))"
| "resume s (Query_waiting msg ev) =
     (case query_wait s msg ev of (r, s1) \<Rightarrow> (s1, Query_done r))"
| "resume s (Query_done r) = (s, Query_done r)"

text \<open>
  A configuration is the state of the object with the calls in flight; the position of a
  frame in the list names its thread. The steps of an interleaving: a message is received
  (\<open>handler\<close> is entered and runs lines 261 to 268), \<open>query\<close> is called (it runs lines
  209 to 219), the call in flight number \<open>i\<close> executes its next statement, or a caller
  runs \<open>cmd\<close> or \<open>add_handler\<close> or assigns one of the two special callbacks.
  The lines that one step runs together (261 to 268, 209 to 219, 279 to 304, and \<open>cmd\<close>)
  read and write none of \<open>query_address\<close>, \<open>query_rv\<close> and the event flags, and only
  line 219 writes \<open>osc_server_events\<close>.
\<close>

type_synonym 'v config = "'v query_state \<times> 'v frame list"

datatype 'v op =
    Receive string "'v list"
  | Call_query bool string "'v list" "string option"
  | Resume nat
  | Cmd bool string "'v list"
  | Add_handler string "'v callback"
  | Set_beat_callback "'v callback option"
  | Set_startup_callback "'v callback option"

fun step :: "'v config \<Rightarrow> 'v op \<Rightarrow> 'v config" where
  "step (s, fs) (Receive address data) =
     (case handler_push s address data of
        (Inl e, s1) \<Rightarrow> (s1, fs @ [Handler_done (Inl e)])
      | (Inr _, s1) \<Rightarrow> (s1, fs @ [Handler_274 address data]))"
| "step (s, fs) (Call_query send_fails msg args kw) =
     (let response_address = effective_response_address msg kw;
          ev = next_event s
      in (s\<lparr>events := (events s)(ev := False), next_event := Suc ev,
            osc_server_events := (osc_server_events s)(response_address \<mapsto> ev)\<rparr>,
          fs @ [Query_225 send_fails msg args response_address]))"
| "step (s, fs) (Resume i) =
     (if i < length fs
      then (case resume s (fs ! i) of (s1, f1) \<Rightarrow> (s1, fs[i := f1]))
      else (s, fs))"
| "step (s, fs) (Cmd send_fails msg args) = (snd (cmd s send_fails msg args), fs)"
| "step (s, fs) (Add_handler address h) = (add_handler s address h, fs)"
| "step (s, fs) (Set_beat_callback cb) = (s\<lparr>beat_callback := cb\<rparr>, fs)"
| "step (s, fs) (Set_startup_callback cb) = (s\<lparr>startup_callback := cb\<rparr>, fs)"

fun run :: "'v config \<Rightarrow> 'v op list \<Rightarrow> 'v config" where
  "run c [] = c"
| "run c (x # xs) = run (step c x) xs"

text \<open>
  The event a correlated message would signal in state \<open>s\<close>, and the property of an
  event that exists, is not signalled and is not that one. A frame aims at an event when
  its remaining statements lead to it through the entry of its address: a call of
  \<open>handler\<close> that has passed the test of line 274 will signal the event stored under its
  address, or the event it has already found there, and a call of \<open>query\<close> that has not
  yet executed line 225 will make its response address the pending one. An event is out of reach in a configuration when it
  is unsignalled there and no frame aims at it.
\<close>

definition pending_event :: "'v query_state \<Rightarrow> nat option" where
  "pending_event s = (case query_address s of None \<Rightarrow> None | Some a \<Rightarrow> osc_server_events s a)"

definition unsignalled :: "'v query_state \<Rightarrow> nat \<Rightarrow> bool" where
  "unsignalled s e \<longleftrightarrow> e < next_event s \<and> \<not> events s e \<and> pending_event s \<noteq> Some e"



text \<open>The class of the exception of an outcome, if it is one.\<close>

definition raised_class :: "exn + 'a \<Rightarrow> exn_class option" where
  "raised_class r = (case r of Inl e \<Rightarrow> Some (exn_class e) | Inr _ \<Rightarrow> None)"

section \<open>Properties\<close>

subsection \<open>Calls and the handler loop\<close>

lemma call_ok:
  "cb_body h args = None \<Longrightarrow> call s h args = (Inr (), s\<lparr>calls := calls s @ [(cb_id h, args)]\<rparr>)"
  by (simp add: call_def)

lemma call_raise:
  "cb_body h args = Some e \<Longrightarrow> call s h args = (Inl e, s\<lparr>calls := calls s @ [(cb_id h, args)]\<rparr>)"
  by (simp add: call_def)

lemma run_handlers_ok:
  "\<forall>h\<in>set hs. cb_body h data = None \<Longrightarrow>
   run_handlers s hs data = (Inr (), s\<lparr>calls := calls s @ invocations hs data\<rparr>)"
proof (induction hs arbitrary: s)
  case Nil
  then show ?case by (simp add: invocations_def)
next
  case (Cons h hs)
  then show ?case by (simp add: call_ok invocations_def)
qed

lemma run_handlers_raise:
  "\<forall>h\<in>set pre. cb_body h data = None \<Longrightarrow> cb_body h data = Some e \<Longrightarrow>
   run_handlers s (pre @ h # post) data
     = (Inl e, s\<lparr>calls := calls s @ invocations (pre @ [h]) data\<rparr>)"
proof (induction pre arbitrary: s)
  case Nil
  then show ?case by (simp add: call_raise invocations_def)
next
  case (Cons p pre)
  then show ?case by (simp add: call_ok invocations_def)
qed

lemma push_ok:
  "\<forall>h\<in>set (registered s address). cb_body h data = None \<Longrightarrow>
   (case handlers s address of None \<Rightarrow> (Inr (), s) | Some hs \<Rightarrow> run_handlers s hs data)
     = (Inr (), s\<lparr>calls := calls s @ invocations (registered s address) data\<rparr>)"
  by (cases "handlers s address") (simp_all add: registered_def run_handlers_ok invocations_def)

lemma handler_raise:
  assumes "handlers s address = Some (pre @ h # post)"
    and "\<forall>p\<in>set pre. cb_body p data = None"
    and "cb_body h data = Some e"
  shows "handler s address data
     = (Inl e, s\<lparr>debug_log := debug_log s @ [Log_input address data],
                  calls := calls s @ invocations (pre @ [h]) data\<rparr>)"
  using assms by (simp add: handler_def log_debug_def run_handlers_raise)

lemma handler_correlated:
  assumes "\<forall>h\<in>set (registered s address). cb_body h data = None"
    and "query_address s = Some address"
    and "osc_server_events s address = Some ev"
  shows "handler s address data
     = (Inr (), s\<lparr>debug_log := debug_log s @ [Log_input address data],
                   calls := calls s @ invocations (registered s address) data,
                   query_rv := query_rv s @ data,
                   events := (events s)(ev := True)\<rparr>)"
proof (cases "handlers s address")
  case None
  then show ?thesis
    using assms(2,3) by (simp add: handler_def log_debug_def registered_def invocations_def)
next
  case (Some hs)
  with assms(1) have "\<forall>h\<in>set hs. cb_body h data = None"
    by (simp add: registered_def)
  with Some show ?thesis
    using assms(2,3) by (simp add: handler_def log_debug_def registered_def run_handlers_ok)
qed

lemma handler_plain:
  assumes "\<forall>h\<in>set (registered s address). cb_body h data = None"
    and "query_address s \<noteq> Some address"
    and "address \<noteq> ''/live/beat''" and "address \<noteq> ''/remix/oscserver/startup''"
  shows "handler s address data
     = (Inr (), s\<lparr>debug_log := debug_log s @ [Log_input address data],
                   calls := calls s @ invocations (registered s address) data\<rparr>)"
proof (cases "handlers s address")
  case None
  then show ?thesis
    using assms(2,3,4) by (auto simp add: handler_def log_debug_def registered_def invocations_def)
next
  case (Some hs)
  with assms(1) have "\<forall>h\<in>set hs. cb_body h data = None"
    by (simp add: registered_def)
  with Some show ?thesis
    using assms(2,3,4) by (auto simp add: handler_def log_debug_def registered_def run_handlers_ok)
qed

lemma handler_beat:
  assumes "\<forall>h\<in>set (registered s ''/live/beat''). cb_body h data = None"
    and "query_address s \<noteq> Some ''/live/beat''"
    and "beat_callback s = Some cb"
  shows "handler s ''/live/beat'' data
     = (let s1 = s\<lparr>debug_log := debug_log s @ [Log_input ''/live/beat'' data],
                     calls := calls s @ invocations (registered s ''/live/beat'') data\<rparr>
        in case has_arg cb of
             Inl e \<Rightarrow> (Inl e, s1)
           | Inr True \<Rightarrow>
               (case data of
                  [] \<Rightarrow> (Inl (Exn IndexError ''list index out of range''), s1)
                | x # _ \<Rightarrow> call s1 cb [x])
           | Inr False \<Rightarrow> call s1 cb [])"
proof (cases "handlers s ''/live/beat''")
  case None
  then show ?thesis
    using assms(2,3) by (auto simp add: handler_def Let_def log_debug_def registered_def invocations_def)
next
  case (Some hs)
  with assms(1) have "\<forall>h\<in>set hs. cb_body h data = None"
    by (simp add: registered_def)
  with Some show ?thesis
    using assms(2,3) by (auto simp add: handler_def Let_def log_debug_def registered_def run_handlers_ok)
qed

lemma handler_startup:
  assumes "\<forall>h\<in>set (registered s ''/remix/oscserver/startup''). cb_body h data = None"
    and "query_address s \<noteq> Some ''/remix/oscserver/startup''"
    and "startup_callback s = Some cb"
  shows "handler s ''/remix/oscserver/startup'' data
     = call (s\<lparr>debug_log := debug_log s @ [Log_input ''/remix/oscserver/startup'' data],
                calls := calls s @ invocations (registered s ''/remix/oscserver/startup'') data\<rparr>)
         cb []"
proof (cases "handlers s ''/remix/oscserver/startup''")
  case None
  then show ?thesis
    using assms(2,3) by (auto simp add: handler_def Let_def log_debug_def registered_def invocations_def)
next
  case (Some hs)
  with assms(1) have "\<forall>h\<in>set hs. cb_body h data = None"
    by (simp add: registered_def)
  with Some show ?thesis
    using assms(2,3) by (auto simp add: handler_def Let_def log_debug_def registered_def run_handlers_ok)
qed


subsection \<open>What each operation leaves unchanged\<close>

lemma pending_event_cong:
  "query_address s' = query_address s \<Longrightarrow> osc_server_events s' = osc_server_events s \<Longrightarrow>
   pending_event s' = pending_event s"
  by (cases "query_address s") (simp_all add: pending_event_def)

lemma run_handlers_shape: "\<exists>c. snd (run_handlers s hs d) = s\<lparr>calls := c\<rparr>"
proof (induction hs arbitrary: s)
  case Nil
  show ?case by (rule exI [of _ "calls s"]) simp
next
  case (Cons h hs)
  let ?s1 = "s\<lparr>calls := calls s @ [(cb_id h, d)]\<rparr>"
  show ?case
  proof (cases "cb_body h d")
    case None
    obtain c where c: "snd (run_handlers ?s1 hs d) = ?s1\<lparr>calls := c\<rparr>"
      using Cons.IH by blast
    show ?thesis by (rule exI [of _ c]) (simp add: call_def None c)
  next
    case (Some e)
    show ?thesis by (rule exI [of _ "calls ?s1"]) (simp add: call_def Some)
  qed
qed

lemma push_shape:
  "\<exists>r c. (case handlers s a of None \<Rightarrow> (Inr (), s) | Some hs \<Rightarrow> run_handlers s hs d)
      = (r, s\<lparr>calls := c\<rparr>)"
proof (cases "handlers s a")
  case None
  show ?thesis by (rule exI [of _ "Inr ()"], rule exI [of _ "calls s"]) (simp add: None)
next
  case (Some hs)
  obtain c where c: "snd (run_handlers s hs d) = s\<lparr>calls := c\<rparr>"
    using run_handlers_shape by blast
  show ?thesis
    by (rule exI [of _ "fst (run_handlers s hs d)"], rule exI [of _ c])
       (simp add: Some prod_eq_iff c)
qed

lemma call_fields:
  "query_address (snd (call s h x)) = query_address s"
  "osc_server_events (snd (call s h x)) = osc_server_events s"
  "next_event (snd (call s h x)) = next_event s"
  "handlers (snd (call s h x)) = handlers s"
  "sent (snd (call s h x)) = sent s"
  "beat_callback (snd (call s h x)) = beat_callback s"
  "startup_callback (snd (call s h x)) = startup_callback s"
  "osc_backend (snd (call s h x)) = osc_backend s"
  "events (snd (call s h x)) = events s"
  by (simp_all add: call_def Let_def split: option.split)

lemma handler_frame:
  "query_address (snd (handler s a d)) = query_address s
   \<and> osc_server_events (snd (handler s a d)) = osc_server_events s
   \<and> next_event (snd (handler s a d)) = next_event s
   \<and> handlers (snd (handler s a d)) = handlers s
   \<and> sent (snd (handler s a d)) = sent s
   \<and> beat_callback (snd (handler s a d)) = beat_callback s
   \<and> startup_callback (snd (handler s a d)) = startup_callback s
   \<and> osc_backend (snd (handler s a d)) = osc_backend s
   \<and> (events (snd (handler s a d)) = events s
        \<or> (query_address s = Some a
            \<and> (\<exists>ev. osc_server_events s a = Some ev
                  \<and> events (snd (handler s a d)) = (events s)(ev := True))))"
proof -
  let ?s0 = "log_debug s (Log_input a d)"
  obtain r c where p: "(case handlers ?s0 a of None \<Rightarrow> (Inr (), ?s0) | Some hs \<Rightarrow> run_handlers ?s0 hs d)
      = (r, ?s0\<lparr>calls := c\<rparr>)"
    using push_shape [where s = "?s0" and a = a and d = d] by blast
  show ?thesis
  proof (cases r)
    case (Inl e)
    with p show ?thesis by (simp add: handler_def Let_def) (simp add: log_debug_def)
  next
    case (Inr u)
    with p show ?thesis
      by (simp add: handler_def Let_def)
         (simp add: log_debug_def call_fields
               split: option.split sum.split bool.split list.split)
  qed
qed


lemma query_send_fields:
  "query_address (snd (query_send s f msg args kw)) = Some (effective_response_address msg kw)"
  "query_rv (snd (query_send s f msg args kw)) = []"
  "osc_server_events (snd (query_send s f msg args kw))
     = (osc_server_events s)(effective_response_address msg kw \<mapsto> next_event s)"
  "next_event (snd (query_send s f msg args kw)) = Suc (next_event s)"
  "events (snd (query_send s f msg args kw)) = (events s)(next_event s := False)"
  "handlers (snd (query_send s f msg args kw)) = handlers s"
  "calls (snd (query_send s f msg args kw)) = calls s"
  "beat_callback (snd (query_send s f msg args kw)) = beat_callback s"
  "startup_callback (snd (query_send s f msg args kw)) = startup_callback s"
  by (simp_all add: query_send_def cmd_def log_debug_def Let_def)

lemma query_send_result:
  "fst (query_send s False msg args kw) = Inr (effective_response_address msg kw)"
  "fst (query_send s True msg args kw) = Inl (Exn LiveConnectionError send_failure_message)"
  "sent (snd (query_send s False msg args kw))
     = sent s @ [(msg, send_payload (osc_backend s) args)]"
  "sent (snd (query_send s True msg args kw)) = sent s"
  by (simp_all add: query_send_def cmd_def log_debug_def Let_def)

lemma query_wait_fields:
  "query_address (snd (query_wait s msg ev)) = query_address s"
  "osc_server_events (snd (query_wait s msg ev)) = osc_server_events s"
  "next_event (snd (query_wait s msg ev)) = next_event s"
  "events (snd (query_wait s msg ev)) = events s"
  by (simp_all add: query_wait_def log_debug_def)

lemma cmd_fields:
  "query_address (snd (cmd s f msg args)) = query_address s"
  "osc_server_events (snd (cmd s f msg args)) = osc_server_events s"
  "next_event (snd (cmd s f msg args)) = next_event s"
  "events (snd (cmd s f msg args)) = events s"
  by (simp_all add: cmd_def log_debug_def Let_def)


lemma handler_unsignalled:
  assumes u: "unsignalled s e"
  shows "unsignalled (snd (handler s a d)) e"
proof -
  have p: "pending_event (snd (handler s a d)) = pending_event s"
    using handler_frame [of s a d] by (intro pending_event_cong) simp_all
  have n: "next_event (snd (handler s a d)) = next_event s"
    using handler_frame [of s a d] by simp
  have "events (snd (handler s a d)) = events s
        \<or> (query_address s = Some a
            \<and> (\<exists>ev. osc_server_events s a = Some ev
                  \<and> events (snd (handler s a d)) = (events s)(ev := True)))"
    using handler_frame [of s a d] by simp
  then have "\<not> events (snd (handler s a d)) e"
  proof
    assume "events (snd (handler s a d)) = events s"
    with u show ?thesis by (simp add: unsignalled_def)
  next
    assume "query_address s = Some a
            \<and> (\<exists>ev. osc_server_events s a = Some ev
                  \<and> events (snd (handler s a d)) = (events s)(ev := True))"
    then obtain ev where q: "query_address s = Some a" and o: "osc_server_events s a = Some ev"
      and ev: "events (snd (handler s a d)) = (events s)(ev := True)"
      by blast
    from q o have "pending_event s = Some ev" by (simp add: pending_event_def)
    with u have "ev \<noteq> e" and "\<not> events s e" by (auto simp add: unsignalled_def)
    then show ?thesis by (simp add: ev)
  qed
  with u show ?thesis by (simp add: unsignalled_def p n)
qed


subsection \<open>Signalling and the course of a query\<close>

lemma handler_signal:
  assumes "events (snd (handler s a d)) e" and "\<not> events s e"
  shows "query_address s = Some a \<and> osc_server_events s a = Some e
         \<and> query_rv (snd (handler s a d)) = query_rv s @ d"
proof -
  let ?s0 = "s\<lparr>debug_log := debug_log s @ [Log_input a d]\<rparr>"
  obtain r c where p: "(case handlers ?s0 a of None \<Rightarrow> (Inr (), ?s0) | Some hs \<Rightarrow> run_handlers ?s0 hs d)
      = (r, ?s0\<lparr>calls := c\<rparr>)"
    using push_shape [where s = "?s0" and a = a and d = d] by blast
  show ?thesis
  proof (cases r)
    case (Inl x)
    with p have "events (snd (handler s a d)) = events s"
      by (simp add: handler_def Let_def log_debug_def)
    with assms show ?thesis by simp
  next
    case (Inr u)
    show ?thesis
    proof (cases "Some a = query_address s")
      case True
      show ?thesis
      proof (cases "osc_server_events s a")
        case None
        with p Inr True have "events (snd (handler s a d)) = events s"
          by (simp add: handler_def Let_def log_debug_def)
        with assms show ?thesis by simp
      next
        case (Some ev)
        with p Inr True have e: "events (snd (handler s a d)) = (events s)(ev := True)"
          and rv: "query_rv (snd (handler s a d)) = query_rv s @ d"
          by (simp_all add: handler_def Let_def log_debug_def)
        from assms e have "ev = e" by (simp split: if_splits)
        with Some True rv show ?thesis by simp
      qed
    next
      case False
      have "events (snd (handler s a d)) = events s
        \<or> (query_address s = Some a
            \<and> (\<exists>ev. osc_server_events s a = Some ev
                  \<and> events (snd (handler s a d)) = (events s)(ev := True)))"
        using handler_frame [of s a d] by simp
      with False have "events (snd (handler s a d)) = events s" by auto
      with assms show ?thesis by simp
    qed
  qed
qed

lemma handler_other_address:
  assumes "query_address s = Some b" and "a \<noteq> b"
  shows "events (snd (handler s a d)) = events s"
proof -
  have "events (snd (handler s a d)) = events s
        \<or> (query_address s = Some a
            \<and> (\<exists>ev. osc_server_events s a = Some ev
                  \<and> events (snd (handler s a d)) = (events s)(ev := True)))"
    using handler_frame [of s a d] by simp
  with assms show ?thesis by auto
qed

lemma dispatch_all_other_addresses:
  assumes "query_address s = Some b" and "\<forall>m\<in>set inbound. fst m \<noteq> b"
  shows "events (dispatch_all s inbound) = events s"
  using assms
proof (induction inbound arbitrary: s)
  case Nil
  show ?case by simp
next
  case (Cons m ms)
  obtain a d where m: "m = (a, d)" by (cases m)
  with Cons.prems have ab: "a \<noteq> b" by simp
  have q: "query_address (snd (handler s a d)) = Some b"
    using handler_frame [of s a d] Cons.prems(1) by simp
  have "events (dispatch_all (snd (handler s a d)) ms) = events (snd (handler s a d))"
    using q Cons.prems(2) by (intro Cons.IH) simp_all
  also have "\<dots> = events s"
    using Cons.prems(1) ab by (rule handler_other_address)
  finally show ?case by (simp add: m)
qed

lemma query_unfold:
  "query s False msg args kw inbound
     = query_wait (dispatch_all (snd (query_send s False msg args kw)) inbound) msg (next_event s)"
  by (simp add: query_def query_send_def cmd_def log_debug_def Let_def)

lemma query_send_failure:
  "fst (query s True msg args kw inbound) = Inl (Exn LiveConnectionError send_failure_message)"
  "snd (query s True msg args kw inbound) = snd (query_send s True msg args kw)"
  by (simp_all add: query_def query_send_def cmd_def log_debug_def Let_def)

lemma query_wait_result:
  "\<not> events s ev \<Longrightarrow> fst (query_wait s msg ev) = Inl (Exn LiveConnectionError timeout_message)"
  "events s ev \<Longrightarrow> fst (query_wait s msg ev) = Inr (query_rv s)"
  by (simp_all add: query_wait_def)

lemma query_no_reply:
  assumes "\<forall>m\<in>set inbound. fst m \<noteq> effective_response_address msg kw"
  shows "fst (query s False msg args kw inbound) = Inl (Exn LiveConnectionError timeout_message)"
proof -
  let ?s1 = "snd (query_send s False msg args kw)"
  have "events (dispatch_all ?s1 inbound) = events ?s1"
    using assms by (intro dispatch_all_other_addresses) (simp_all add: query_send_fields)
  then have "\<not> events (dispatch_all ?s1 inbound) (next_event s)"
    by (simp add: query_send_fields)
  then show ?thesis by (simp add: query_unfold query_wait_result)
qed

lemma registered_query_send:
  "registered (snd (query_send s f msg args kw)) a = registered s a"
  by (simp add: registered_def query_send_fields)

lemma query_reply:
  assumes "\<forall>h\<in>set (registered s (effective_response_address msg kw)). cb_body h data = None"
  shows "query s False msg args kw [(effective_response_address msg kw, data)]
     = (Inr data,
        (snd (query_send s False msg args kw))
          \<lparr>debug_log := debug_log (snd (query_send s False msg args kw))
               @ [Log_input (effective_response_address msg kw) data],
           calls := calls s @ invocations (registered s (effective_response_address msg kw)) data,
           query_rv := data,
           events := (events s)(next_event s := True)\<rparr>)"
proof -
  let ?ra = "effective_response_address msg kw"
  let ?s1 = "snd (query_send s False msg args kw)"
  have "handler ?s1 ?ra data
     = (Inr (), ?s1\<lparr>debug_log := debug_log ?s1 @ [Log_input ?ra data],
                   calls := calls ?s1 @ invocations (registered ?s1 ?ra) data,
                   query_rv := query_rv ?s1 @ data,
                   events := (events ?s1)(next_event s := True)\<rparr>)"
    using assms by (intro handler_correlated) (simp_all add: registered_query_send query_send_fields)
  then show ?thesis
    by (simp add: query_unfold query_wait_def registered_query_send query_send_fields)
qed

subsection \<open>cmd\<close>

text \<open>
  Claim C10. \<open>cmd\<close> hands the message to the transport and touches nothing else of the
  object: on a successful send the message (with the payload the backend builds) is the
  one new entry of \<open>sent\<close>; on a failed send nothing is sent and
  \<open>LiveConnectionError\<close> is raised; in both cases the pending events map, the event
  flags, the pending response address, the accumulated reply arguments, the handler
  registry and the two special callbacks are unchanged, no callback is invoked, and the
  state differs from the one before in \<open>sent\<close> and the debug log at most.
\<close>

theorem cmd_only_sends:
  "fst (cmd s False msg args) = Inr ()
   \<and> sent (snd (cmd s False msg args)) = sent s @ [(msg, send_payload (osc_backend s) args)]
   \<and> fst (cmd s True msg args) = Inl (Exn LiveConnectionError send_failure_message)
   \<and> sent (snd (cmd s True msg args)) = sent s
   \<and> osc_server_events (snd (cmd s f msg args)) = osc_server_events s
   \<and> query_address (snd (cmd s f msg args)) = query_address s
   \<and> query_rv (snd (cmd s f msg args)) = query_rv s
   \<and> events (snd (cmd s f msg args)) = events s
   \<and> next_event (snd (cmd s f msg args)) = next_event s
   \<and> handlers (snd (cmd s f msg args)) = handlers s
   \<and> beat_callback (snd (cmd s f msg args)) = beat_callback s
   \<and> startup_callback (snd (cmd s f msg args)) = startup_callback s
   \<and> calls (snd (cmd s f msg args)) = calls s
   \<and> snd (cmd s f msg args)
       = s\<lparr>sent := sent (snd (cmd s f msg args)),
            debug_log := debug_log (snd (cmd s f msg args))\<rparr>"
  by (simp add: cmd_def log_debug_def Let_def)

subsection \<open>query and its reply\<close>

text \<open>
  Claim C1, as stated, at a concrete input: a push handler that raises is registered for
  \<open>/live/tempo\<close>, \<open>query("/live/tempo")\<close> is sent and waits, and the message
  \<open>("/live/tempo", [120])\<close> is dispatched. The handler's exception leaves \<open>handler\<close>
  before the correlation step, the event is not signalled, and the query does not return
  \<open>[120]\<close>: it times out.
\<close>

theorem query_reply_with_raising_handler_counterexample:
  "fst (query (add_handler (init Liblo) ''/live/tempo''
                 (Callback 1 (Some 1) None (\<lambda>_. Some (Exn (OtherError ''ValueError'') ''bad tempo''))))
          False ''/live/tempo'' [] None [(''/live/tempo'', [120 :: int])])
     = Inl (Exn LiveConnectionError timeout_message)"
  by (simp add: query_def query_send_def query_wait_def cmd_def handler_def add_handler_def
        init_def log_debug_def call_def effective_response_address_def send_payload_def Let_def)

text \<open>
  Claim C1, amended. For every state, address \<open>A\<close> and argument sequence \<open>V\<close>: when
  every push handler registered for \<open>A\<close> returns normally on \<open>V\<close>, a \<open>query(A)\<close>
  whose send succeeded and that is waiting returns exactly \<open>V\<close> once \<open>handler\<close> is
  run on \<open>(A, V)\<close>. The accumulated arguments start empty, the pending address is \<open>A\<close>,
  the wait is on a fresh unsignalled event; the dispatcher appends \<open>V\<close> and signals that
  event.
\<close>

theorem query_returns_reply:
  assumes "\<forall>h\<in>set (registered s A). cb_body h V = None"
  shows "query_rv (snd (query_send s False A args None)) = []
       \<and> query_address (snd (query_send s False A args None)) = Some A
       \<and> osc_server_events (snd (query_send s False A args None)) A = Some (next_event s)
       \<and> \<not> events (snd (query_send s False A args None)) (next_event s)
       \<and> query_rv (snd (handler (snd (query_send s False A args None)) A V)) = V
       \<and> events (snd (handler (snd (query_send s False A args None)) A V)) (next_event s)
       \<and> fst (query s False A args None [(A, V)]) = Inr V"
proof -
  have ra: "effective_response_address A None = A"
    by (simp add: effective_response_address_def)
  let ?s1 = "snd (query_send s False A args None)"
  have h: "handler ?s1 A V
     = (Inr (), ?s1\<lparr>debug_log := debug_log ?s1 @ [Log_input A V],
                   calls := calls ?s1 @ invocations (registered ?s1 A) V,
                   query_rv := query_rv ?s1 @ V,
                   events := (events ?s1)(next_event s := True)\<rparr>)"
    using assms by (intro handler_correlated) (simp_all add: registered_query_send query_send_fields ra)
  have q: "fst (query s False A args None [(A, V)]) = Inr V"
    using assms query_reply [of s A None V args] by (simp add: ra)
  show ?thesis
    by (simp add: h q query_send_fields ra)
qed

text \<open>The scenario of the specification: no handler registered, reply \<open>[120]\<close>.\<close>

theorem query_returns_reply_witness:
  "fst (query (init Liblo) False ''/live/tempo'' [] None [(''/live/tempo'', [120 :: int])])
     = Inr [120]"
proof -
  have "\<forall>h\<in>set (registered (init Liblo :: int query_state) ''/live/tempo''). cb_body h [120] = None"
    by (simp add: registered_def init_def)
  from query_returns_reply [OF this] show ?thesis by simp
qed

subsection \<open>The two failures of query\<close>

text \<open>
  Claim C4, as stated, at a concrete input: a query that times out and a query whose send
  fails raise exceptions of the same class, \<open>LiveConnectionError\<close>; there is no separate
  timeout error.
\<close>

theorem timeout_error_class_counterexample:
  "raised_class (fst (query (init Liblo) False ''/live/tempo'' [] None ([] :: (string \<times> int list) list)))
     = Some LiveConnectionError
   \<and> raised_class (fst (query (init Liblo) True ''/live/tempo'' [] None ([] :: (string \<times> int list) list)))
     = Some LiveConnectionError"
  by (simp add: raised_class_def query_def query_send_def query_wait_def cmd_def
        init_def log_debug_def effective_response_address_def send_payload_def Let_def)

text \<open>
  Claim C4, amended. A query for which no inbound message arrives at the effective response
  address while it waits (more generally, whose event is not signalled when the wait ends)
  fails with \<open>LiveConnectionError\<close> carrying the timeout message; a query or a \<open>cmd\<close>
  whose send fails fails with \<open>LiveConnectionError\<close> carrying the send-failure message.
  The class is the same, and the two messages differ.
\<close>

theorem timeout_and_send_failure:
  "((\<forall>m\<in>set inbound. fst m \<noteq> effective_response_address msg kw) \<longrightarrow>
      fst (query s False msg args kw inbound) = Inl (Exn LiveConnectionError timeout_message))
   \<and> (\<not> events s' ev \<longrightarrow>
      fst (query_wait s' msg ev) = Inl (Exn LiveConnectionError timeout_message))
   \<and> fst (query s True msg args kw inbound) = Inl (Exn LiveConnectionError send_failure_message)
   \<and> fst (cmd s True msg args) = Inl (Exn LiveConnectionError send_failure_message)
   \<and> exn_class (Exn LiveConnectionError timeout_message)
       = exn_class (Exn LiveConnectionError send_failure_message)
   \<and> timeout_message \<noteq> send_failure_message"
proof -
  have "timeout_message \<noteq> send_failure_message"
    by (simp add: timeout_message_def send_failure_message_def)
  moreover have "fst (cmd s True msg args) = Inl (Exn LiveConnectionError send_failure_message)"
    by (simp add: cmd_def Let_def)
  ultimately show ?thesis
    by (simp add: query_no_reply query_wait_result query_send_failure)
qed

theorem timeout_and_send_failure_witness:
  "fst (query (init Liblo) False ''/live/tempo'' [] None [(''/live/beat'', [42 :: int])])
     = Inl (Exn LiveConnectionError timeout_message)
   \<and> fst (query_wait (init Liblo :: int query_state) ''/live/tempo'' 0)
     = Inl (Exn LiveConnectionError timeout_message)"
proof -
  have a: "\<forall>m\<in>set [(''/live/beat'', [42 :: int])]. fst m \<noteq> effective_response_address ''/live/tempo'' None"
    by (simp add: effective_response_address_def)
  have b: "\<not> events (init Liblo :: int query_state) 0"
    by (simp add: init_def)
  from timeout_and_send_failure
    [of "[(''/live/beat'', [42 :: int])]" "''/live/tempo''" None "init Liblo" "[]" "init Liblo" 0]
    a b
  show ?thesis by blast
qed

subsection \<open>A failed send\<close>

text \<open>
  Claim C5, as stated, at a concrete input: \<open>query("/live/tempo")\<close> on the initial
  object with a failing send. The entry installed for \<open>/live/tempo\<close> is still in the
  events map after the error, and the pending address is still \<open>/live/tempo\<close>: the state
  is not the one before the call.
\<close>

theorem failed_send_leaves_entry_counterexample:
  "osc_server_events (snd (query (init Liblo) True ''/live/tempo'' [] None
       ([] :: (string \<times> int list) list))) ''/live/tempo'' = Some 0
   \<and> osc_server_events (init Liblo :: int query_state) ''/live/tempo'' = None
   \<and> query_address (snd (query (init Liblo) True ''/live/tempo'' [] None
       ([] :: (string \<times> int list) list))) = Some ''/live/tempo''
   \<and> query_address (init Liblo :: int query_state) = None"
  by (simp add: query_def query_send_def cmd_def
        init_def log_debug_def effective_response_address_def send_payload_def Let_def)

text \<open>
  Claim C5, amended. When the send of a query fails, \<open>LiveConnectionError\<close> propagates
  to the caller at once (no waiting, no inbound message is awaited, nothing is sent), and
  the pending entry stays installed: the events map holds a fresh unsignalled event under
  the effective response address, the pending address is that address and the
  accumulated arguments are empty.
\<close>

theorem failed_send_propagates_and_keeps_entry:
  "fst (query s True msg args kw inbound) = Inl (Exn LiveConnectionError send_failure_message)
   \<and> snd (query s True msg args kw inbound) = snd (query_send s True msg args kw)
   \<and> osc_server_events (snd (query s True msg args kw inbound))
       = (osc_server_events s)(effective_response_address msg kw \<mapsto> next_event s)
   \<and> events (snd (query s True msg args kw inbound)) = (events s)(next_event s := False)
   \<and> next_event (snd (query s True msg args kw inbound)) = Suc (next_event s)
   \<and> query_address (snd (query s True msg args kw inbound))
       = Some (effective_response_address msg kw)
   \<and> query_rv (snd (query s True msg args kw inbound)) = []
   \<and> sent (snd (query s True msg args kw inbound)) = sent s
   \<and> calls (snd (query s True msg args kw inbound)) = calls s"
  by (simp add: query_send_failure query_send_fields query_send_result)

subsection \<open>A handler that raises\<close>

text \<open>
  Claim C2, as stated, at a concrete input: two push handlers are registered for
  \<open>/live/tempo\<close>, the first raises, and a query is pending on \<open>/live/tempo\<close>. Handling
  \<open>("/live/tempo", [120])\<close> raises the first handler's exception out of \<open>handler\<close>;
  the second handler is not invoked, the arguments are not appended, the event is not
  signalled, and the debug log holds no line about the failure.
\<close>

theorem raising_handler_not_isolated_counterexample:
  "fst (handler (snd (query_send
          (add_handler (add_handler (init Liblo) ''/live/tempo''
              (Callback 1 (Some 1) None (\<lambda>_. Some (Exn (OtherError ''ValueError'') ''bad tempo''))))
            ''/live/tempo'' (Callback 2 (Some 1) None (\<lambda>_. None)))
          False ''/live/tempo'' [] None)) ''/live/tempo'' [120 :: int])
     = Inl (Exn (OtherError ''ValueError'') ''bad tempo'')
   \<and> calls (snd (handler (snd (query_send
          (add_handler (add_handler (init Liblo) ''/live/tempo''
              (Callback 1 (Some 1) None (\<lambda>_. Some (Exn (OtherError ''ValueError'') ''bad tempo''))))
            ''/live/tempo'' (Callback 2 (Some 1) None (\<lambda>_. None)))
          False ''/live/tempo'' [] None)) ''/live/tempo'' [120 :: int]))
     = [(1, [120])]
   \<and> query_rv (snd (handler (snd (query_send
          (add_handler (add_handler (init Liblo) ''/live/tempo''
              (Callback 1 (Some 1) None (\<lambda>_. Some (Exn (OtherError ''ValueError'') ''bad tempo''))))
            ''/live/tempo'' (Callback 2 (Some 1) None (\<lambda>_. None)))
          False ''/live/tempo'' [] None)) ''/live/tempo'' [120 :: int]))
     = []
   \<and> \<not> events (snd (handler (snd (query_send
          (add_handler (add_handler (init Liblo) ''/live/tempo''
              (Callback 1 (Some 1) None (\<lambda>_. Some (Exn (OtherError ''ValueError'') ''bad tempo''))))
            ''/live/tempo'' (Callback 2 (Some 1) None (\<lambda>_. None)))
          False ''/live/tempo'' [] None)) ''/live/tempo'' [120 :: int])) 0
   \<and> debug_log (snd (handler (snd (query_send
          (add_handler (add_handler (init Liblo) ''/live/tempo''
              (Callback 1 (Some 1) None (\<lambda>_. Some (Exn (OtherError ''ValueError'') ''bad tempo''))))
            ''/live/tempo'' (Callback 2 (Some 1) None (\<lambda>_. None)))
          False ''/live/tempo'' [] None)) ''/live/tempo'' [120 :: int]))
     = [Log_output ''/live/tempo'' [], Log_input ''/live/tempo'' [120]]"
  by (simp add: query_send_def cmd_def handler_def add_handler_def
        init_def log_debug_def call_def effective_response_address_def send_payload_def Let_def)

text \<open>
  Claim C2, amended. When the handlers registered for the address of an inbound message
  are \<open>pre @ h # post\<close>, those of \<open>pre\<close> return normally and \<open>h\<close> raises \<open>e\<close>, then
  \<open>handler\<close> raises \<open>e\<close> to its caller: nothing catches it. The handlers of \<open>pre\<close> and
  \<open>h\<close> have been invoked, in order; the handlers of \<open>post\<close> are not invoked, the
  correlation step does not run (the accumulated arguments and every event flag are as
  before) and no special callback is invoked; the only log line is the one for the inbound
  message.
\<close>

theorem raising_handler_aborts_dispatch:
  assumes "handlers s address = Some (pre @ h # post)"
    and "\<forall>p\<in>set pre. cb_body p data = None"
    and "cb_body h data = Some e"
  shows "handler s address data
           = (Inl e, s\<lparr>debug_log := debug_log s @ [Log_input address data],
                        calls := calls s @ invocations (pre @ [h]) data\<rparr>)
       \<and> calls (snd (handler s address data)) = calls s @ invocations pre data @ [(cb_id h, data)]
       \<and> query_rv (snd (handler s address data)) = query_rv s
       \<and> events (snd (handler s address data)) = events s
       \<and> debug_log (snd (handler s address data)) = debug_log s @ [Log_input address data]"
  by (simp add: handler_raise [OF assms] invocations_def)

theorem raising_handler_aborts_dispatch_witness:
  "handler (add_handler (add_handler (init Liblo) ''/x''
              (Callback 1 (Some 0) None (\<lambda>_. Some (Exn TypeError ''takes no arguments''))))
            ''/x'' (Callback 2 (Some 1) None (\<lambda>_. None))) ''/x'' [5 :: int]
     = (Inl (Exn TypeError ''takes no arguments''),
        (add_handler (add_handler (init Liblo) ''/x''
              (Callback 1 (Some 0) None (\<lambda>_. Some (Exn TypeError ''takes no arguments''))))
            ''/x'' (Callback 2 (Some 1) None (\<lambda>_. None)))
          \<lparr>debug_log := [Log_input ''/x'' [5]], calls := [(1, [5])]\<rparr>)"
proof -
  let ?h1 = "Callback 1 (Some 0) None (\<lambda>_. Some (Exn TypeError ''takes no arguments'')) :: int callback"
  let ?h2 = "Callback 2 (Some 1) None (\<lambda>_. None) :: int callback"
  let ?s = "add_handler (add_handler (init Liblo) ''/x'' ?h1) ''/x'' ?h2"
  have a: "handlers ?s ''/x'' = Some ([] @ ?h1 # [?h2])"
    by (simp add: add_handler_def init_def Let_def)
  have b: "\<forall>p\<in>set []. cb_body p [5 :: int] = None" by simp
  have c: "cb_body ?h1 [5] = Some (Exn TypeError ''takes no arguments'')" by simp
  from raising_handler_aborts_dispatch [OF a b c] show ?thesis
    by (simp add: invocations_def add_handler_def init_def Let_def)
qed

subsection \<open>add_handler and the order of delivery\<close>

lemma add_handler_handlers:
  "handlers (add_handler s address h) = (handlers s)(address \<mapsto> registered s address @ [h])"
  by (auto simp add: add_handler_def registered_def Let_def split: option.splits)

lemma registered_add_handler:
  "registered (add_handler s address h) address = registered s address @ [h]"
  "a \<noteq> address \<Longrightarrow> registered (add_handler s address h) a = registered s a"
  by (simp_all add: registered_def add_handler_handlers)

lemma registered_foldl_add_handler:
  "registered (foldl (\<lambda>s h. add_handler s address h) s hs) address = registered s address @ hs"
  by (induction hs arbitrary: s) (simp_all add: registered_add_handler)

lemma call_calls: "calls (snd (call s cb args)) = calls s @ [(cb_id cb, args)]"
  by (simp add: call_def Let_def split: option.split)

lemma handler_push_calls:
  assumes "\<forall>h\<in>set (registered s address). cb_body h data = None"
  shows "\<exists>extra. calls (snd (handler s address data))
                    = calls s @ invocations (registered s address) data @ extra
               \<and> length extra \<le> 1
               \<and> (query_address s = Some address
                    \<or> (address \<noteq> ''/live/beat'' \<and> address \<noteq> ''/remix/oscserver/startup'')
                  \<longrightarrow> extra = [])"
proof -
  let ?s1 = "s\<lparr>debug_log := debug_log s @ [Log_input address data],
               calls := calls s @ invocations (registered s address) data\<rparr>"
  have p: "(case handlers (s\<lparr>debug_log := debug_log s @ [Log_input address data]\<rparr>) address of
              None \<Rightarrow> (Inr (), s\<lparr>debug_log := debug_log s @ [Log_input address data]\<rparr>)
            | Some hs \<Rightarrow> run_handlers (s\<lparr>debug_log := debug_log s @ [Log_input address data]\<rparr>) hs data)
           = (Inr (), ?s1)"
  proof (cases "handlers s address")
    case None
    then show ?thesis by (simp add: registered_def invocations_def)
  next
    case (Some hs)
    with assms have "\<forall>h\<in>set hs. cb_body h data = None" by (simp add: registered_def)
    with Some show ?thesis by (simp add: registered_def run_handlers_ok)
  qed
  show ?thesis
    using p
    by (simp add: handler_def log_debug_def Let_def)
       (auto simp add: call_calls split: option.split sum.split bool.split list.split)
qed


text \<open>
  Claim C8, as stated, at a concrete input: two handlers are registered for
  \<open>/live/tempo\<close>, the first raises. One inbound message at \<open>/live/tempo\<close> invokes the
  first handler only: not all registered handlers are invoked.
\<close>

theorem second_handler_not_invoked_counterexample:
  "registered (add_handler (add_handler (init Liblo) ''/live/tempo''
        (Callback 1 (Some 1) None (\<lambda>_. Some (Exn (OtherError ''ValueError'') ''bad tempo''))))
      ''/live/tempo'' (Callback 2 (Some 1) None (\<lambda>_. None))) ''/live/tempo''
     = [Callback 1 (Some 1) None (\<lambda>_. Some (Exn (OtherError ''ValueError'') ''bad tempo'')),
        Callback 2 (Some 1) None (\<lambda>_. None)]
   \<and> calls (snd (handler (add_handler (add_handler (init Liblo) ''/live/tempo''
        (Callback 1 (Some 1) None (\<lambda>_. Some (Exn (OtherError ''ValueError'') ''bad tempo''))))
      ''/live/tempo'' (Callback 2 (Some 1) None (\<lambda>_. None))) ''/live/tempo'' [120 :: int]))
     = [(1, [120])]"
  by (simp add: registered_def handler_def add_handler_def init_def log_debug_def call_def Let_def)

text \<open>
  Claim C8, amended. \<open>add_handler\<close> appends the callback to the sequence of the address,
  creating the sequence if absent, and suppresses no duplicate: after registering the
  handlers \<open>hs\<close> on one address its sequence is the former one followed by \<open>hs\<close>, and a
  callback registered twice is in it twice. Delivering one inbound message at the address
  invokes the registered handlers in registration order, each entry once, up to and
  including the first one that raises; when none raises all of them are invoked (a
  callback registered twice, twice), and the push step is followed by at most one more
  call, that of a special callback, and by none when the address is the pending response
  address or is not a special address.
\<close>

theorem add_handler_and_delivery_order:
  "handlers (add_handler s address h) = (handlers s)(address \<mapsto> registered s address @ [h])
   \<and> registered (foldl (\<lambda>s h. add_handler s address h) s hs) address = registered s address @ hs
   \<and> registered (add_handler (add_handler s address h) address h) address
       = registered s address @ [h, h]
   \<and> ((\<forall>h\<in>set (registered s address). cb_body h data = None) \<longrightarrow>
        (\<exists>extra. calls (snd (handler s address data))
                    = calls s @ map (\<lambda>h. (cb_id h, data)) (registered s address) @ extra
               \<and> length extra \<le> 1
               \<and> (query_address s = Some address
                    \<or> (address \<noteq> ''/live/beat'' \<and> address \<noteq> ''/remix/oscserver/startup'')
                  \<longrightarrow> extra = [])))
   \<and> (handlers s address = Some (pre @ g # post) \<and> (\<forall>p\<in>set pre. cb_body p data = None)
        \<and> cb_body g data = Some e \<longrightarrow>
        calls (snd (handler s address data)) = calls s @ map (\<lambda>h. (cb_id h, data)) (pre @ [g]))"
proof -
  have a: "(\<forall>h\<in>set (registered s address). cb_body h data = None) \<longrightarrow>
        (\<exists>extra. calls (snd (handler s address data))
                    = calls s @ map (\<lambda>h. (cb_id h, data)) (registered s address) @ extra
               \<and> length extra \<le> 1
               \<and> (query_address s = Some address
                    \<or> (address \<noteq> ''/live/beat'' \<and> address \<noteq> ''/remix/oscserver/startup'')
                  \<longrightarrow> extra = []))"
    using handler_push_calls [of s address data] by (simp add: invocations_def)
  have b: "calls (snd (handler s address data)) = calls s @ map (\<lambda>h. (cb_id h, data)) (pre @ [g])"
    if "handlers s address = Some (pre @ g # post)" and "\<forall>p\<in>set pre. cb_body p data = None"
      and "cb_body g data = Some e"
    using handler_raise [OF that] by (simp add: invocations_def)
  have c: "registered (add_handler (add_handler s address h) address h) address
       = registered s address @ [h, h]"
    by (simp add: registered_add_handler)
  from a b c show ?thesis
    by (simp add: add_handler_handlers registered_foldl_add_handler)
qed

theorem add_handler_and_delivery_order_witness:
  "calls (snd (handler (foldl (\<lambda>s h. add_handler s ''/live/tempo'' h) (init Liblo)
        [Callback 4 (Some 1) None (\<lambda>_. None), Callback 5 (Some 1) None (\<lambda>_. None),
         Callback 4 (Some 1) None (\<lambda>_. None)]) ''/live/tempo'' [120 :: int]))
     = [(4, [120]), (5, [120]), (4, [120])]"
proof -
  let ?hs = "[Callback 4 (Some 1) None (\<lambda>_. None), Callback 5 (Some 1) None (\<lambda>_. None),
         Callback 4 (Some 1) None (\<lambda>_. None)] :: int callback list"
  let ?s = "foldl (\<lambda>s h. add_handler s ''/live/tempo'' h) (init Liblo) ?hs"
  have r: "registered ?s ''/live/tempo'' = ?hs"
    by (simp add: registered_def add_handler_def init_def Let_def)
  have ok: "\<forall>h\<in>set (registered ?s ''/live/tempo''). cb_body h [120] = None"
    unfolding r by simp
  have q: "query_address ?s = None" "calls ?s = []"
    by (simp_all add: add_handler_def init_def Let_def)
  from add_handler_and_delivery_order [where s = "?s" and address = "''/live/tempo''"
      and data = "[120]" and h = "Callback 4 (Some 1) None (\<lambda>_. None)" and hs = "[]"
      and pre = "[]" and post = "[]" and g = "Callback 4 (Some 1) None (\<lambda>_. None)"
      and e = "Exn TypeError []"] ok
  obtain extra where "calls (snd (handler ?s ''/live/tempo'' [120]))
        = calls ?s @ map (\<lambda>h. (cb_id h, [120])) (registered ?s ''/live/tempo'') @ extra"
    and "extra = []"
    by auto
  then show ?thesis unfolding r q by simp
qed

subsection \<open>The beat callback\<close>

text \<open>
  Claim C9, as stated, at a concrete input: a beat callback declaring one parameter is
  registered and a query is pending on \<open>/live/beat\<close>. The message
  \<open>("/live/beat", [42])\<close> arrives: \<open>handler\<close> appends its arguments to the reply,
  signals the event and returns normally, and the beat callback is not invoked.
\<close>

theorem pending_beat_query_skips_beat_callback_counterexample:
  "fst (handler (snd (query_send
       ((init Pythonosc)\<lparr>beat_callback := Some (Callback 9 (Some 1) None (\<lambda>_. None))\<rparr>)
       False ''/live/beat'' [] None)) ''/live/beat'' [42 :: int]) = Inr ()
   \<and> calls (snd (handler (snd (query_send
       ((init Pythonosc)\<lparr>beat_callback := Some (Callback 9 (Some 1) None (\<lambda>_. None))\<rparr>)
       False ''/live/beat'' [] None)) ''/live/beat'' [42 :: int])) = []"
  by (simp add: query_send_def cmd_def handler_def
        init_def log_debug_def call_def effective_response_address_def send_payload_def Let_def)

text \<open>
  Claim C9, amended. When an inbound message arrives at \<open>/live/beat\<close>, a beat callback
  is registered, \<open>/live/beat\<close> is not the pending response address and the push handlers
  of \<open>/live/beat\<close> return normally, the callback is invoked according to the number of
  parameters that \<open>inspect.signature\<close> reports for it: a callback with no parameter is
  invoked once with no arguments, and a callback with one or more parameters is invoked
  once with the first argument of the message when the message has one; on a message
  without arguments \<open>data[0]\<close> raises \<open>IndexError\<close> and the callback is not invoked.
\<close>

theorem beat_callback_by_arity:
  assumes "\<forall>h\<in>set (registered s ''/live/beat''). cb_body h data = None"
    and "query_address s \<noteq> Some ''/live/beat''"
    and "beat_callback s = Some cb"
    and "cb_signature cb = Some n"
  shows "(n = 0 \<longrightarrow>
            handler s ''/live/beat'' data
              = call (s\<lparr>debug_log := debug_log s @ [Log_input ''/live/beat'' data],
                         calls := calls s @ invocations (registered s ''/live/beat'') data\<rparr>) cb []
            \<and> calls (snd (handler s ''/live/beat'' data))
              = calls s @ invocations (registered s ''/live/beat'') data @ [(cb_id cb, [])])
       \<and> (0 < n \<and> data = x # xs \<longrightarrow>
            handler s ''/live/beat'' data
              = call (s\<lparr>debug_log := debug_log s @ [Log_input ''/live/beat'' data],
                         calls := calls s @ invocations (registered s ''/live/beat'') data\<rparr>) cb [x]
            \<and> calls (snd (handler s ''/live/beat'' data))
              = calls s @ invocations (registered s ''/live/beat'') data @ [(cb_id cb, [x])])
       \<and> (0 < n \<and> data = [] \<longrightarrow>
            handler s ''/live/beat'' data
              = (Inl (Exn IndexError ''list index out of range''),
                 s\<lparr>debug_log := debug_log s @ [Log_input ''/live/beat'' data],
                   calls := calls s @ invocations (registered s ''/live/beat'') data\<rparr>))"
proof -
  let ?s1 = "s\<lparr>debug_log := debug_log s @ [Log_input ''/live/beat'' data],
                calls := calls s @ invocations (registered s ''/live/beat'') data\<rparr>"
  note hb = handler_beat [OF assms(1,2,3)]
  have 1: "handler s ''/live/beat'' data = call ?s1 cb []" if "n = 0"
    using hb assms(4) that by (simp add: Let_def has_arg_def)
  have 2: "handler s ''/live/beat'' data = call ?s1 cb [x]" if "0 < n" and "data = x # xs"
    using hb assms(4) that by (simp add: Let_def has_arg_def)
  have 3: "handler s ''/live/beat'' data
             = (Inl (Exn IndexError ''list index out of range''), ?s1)" if "0 < n" and "data = []"
    using hb assms(4) that by (simp add: Let_def has_arg_def)
  have 4: "calls (snd (call ?s1 cb as)) = calls s @ invocations (registered s ''/live/beat'') data
              @ [(cb_id cb, as)]" for as
    by (simp add: call_calls)
  show ?thesis
  proof (intro conjI impI)
    assume "n = 0"
    then show "handler s ''/live/beat'' data = call ?s1 cb []" by (rule 1)
    with 4 [of "[]"] show "calls (snd (handler s ''/live/beat'' data))
              = calls s @ invocations (registered s ''/live/beat'') data @ [(cb_id cb, [])]"
      by simp
  next
    assume a: "0 < n \<and> data = x # xs"
    then show h: "handler s ''/live/beat'' data = call ?s1 cb [x]" using 2 by blast
    with 4 [of "[x]"] show "calls (snd (handler s ''/live/beat'' data))
              = calls s @ invocations (registered s ''/live/beat'') data @ [(cb_id cb, [x])]"
      by simp
  next
    assume "0 < n \<and> data = []"
    then show "handler s ''/live/beat'' data
             = (Inl (Exn IndexError ''list index out of range''), ?s1)" using 3 by blast
  qed
qed

theorem beat_callback_by_arity_witness:
  "calls (snd (handler ((init Liblo)\<lparr>beat_callback := Some (Callback 7 (Some 0) None (\<lambda>_. None))\<rparr>)
       ''/live/beat'' [42 :: int])) = [(7, [])]
   \<and> calls (snd (handler ((init Liblo)\<lparr>beat_callback := Some (Callback 8 (Some 1) None (\<lambda>_. None))\<rparr>)
       ''/live/beat'' [42 :: int])) = [(8, [42])]"
proof -
  let ?s = "(init Liblo)\<lparr>beat_callback := Some (Callback 7 (Some 0) None (\<lambda>_. None))\<rparr>
              :: int query_state"
  let ?t = "(init Liblo)\<lparr>beat_callback := Some (Callback 8 (Some 1) None (\<lambda>_. None))\<rparr>
              :: int query_state"
  have a: "calls (snd (handler ?s ''/live/beat'' [42])) = [(7, [])]"
    using beat_callback_by_arity [where s = "?s" and data = "[42]"
        and cb = "Callback 7 (Some 0) None (\<lambda>_. None)" and n = 0 and x = 42 and xs = "[]"]
    by (simp add: registered_def invocations_def init_def call_def Let_def)
  have b: "calls (snd (handler ?t ''/live/beat'' [42])) = [(8, [42])]"
    using beat_callback_by_arity [where s = "?t" and data = "[42]"
        and cb = "Callback 8 (Some 1) None (\<lambda>_. None)" and n = 1 and x = 42 and xs = "[]"]
    by (simp add: registered_def invocations_def init_def call_def Let_def)
  from a b show ?thesis by simp
qed

subsection \<open>Interleavings\<close>

lemma handler_parts:
  "handler s a d =
     (case handler_push s a d of
        (Inl e, s1) \<Rightarrow> (Inl e, s1)
      | (Inr u, s1) \<Rightarrow>
          if Some a = query_address s1
          then (case osc_server_events s1 a of
                  None \<Rightarrow> (Inl (Exn KeyError a), s1\<lparr>query_rv := query_rv s1 @ d\<rparr>)
                | Some ev \<Rightarrow> (Inr (), s1\<lparr>query_rv := query_rv s1 @ d,
                                           events := (events s1)(ev := True)\<rparr>))
          else handler_special s1 a d)"
proof -
  let ?s0 = "log_debug s (Log_input a d)"
  obtain r s1 where p: "(case handlers ?s0 a of None \<Rightarrow> (Inr (), ?s0)
      | Some hs \<Rightarrow> run_handlers ?s0 hs d) = (r, s1)"
    by (metis surj_pair)
  show ?thesis
    by (cases r)
       (simp_all add: handler_def handler_push_def handler_special_def Let_def p
          split: option.split)
qed

lemma handler_push_shape:
  "\<exists>r c. handler_push s a d = (r, s\<lparr>debug_log := debug_log s @ [Log_input a d], calls := c\<rparr>)"
proof -
  let ?s0 = "s\<lparr>debug_log := debug_log s @ [Log_input a d]\<rparr>"
  obtain r c where p: "(case handlers ?s0 a of None \<Rightarrow> (Inr (), ?s0) | Some hs \<Rightarrow> run_handlers ?s0 hs d)
      = (r, ?s0\<lparr>calls := c\<rparr>)"
    using push_shape [where s = "?s0" and a = a and d = d] by blast
  show ?thesis
    using p by (intro exI [of _ r] exI [of _ c]) (simp add: handler_push_def Let_def log_debug_def)
qed


lemma handler_special_fields:
  "query_address (snd (handler_special s a d)) = query_address s"
  "osc_server_events (snd (handler_special s a d)) = osc_server_events s"
  "next_event (snd (handler_special s a d)) = next_event s"
  "events (snd (handler_special s a d)) = events s"
  by (simp_all add: handler_special_def call_fields
        split: option.split sum.split bool.split list.split)



lemma resume_next_event:
  "next_event (fst (resume s f)) = next_event s"
  by (cases f)
     (simp_all add: split_beta handler_special_fields cmd_fields query_wait_fields
        split: option.split sum.split)









lemma handler_steps:
  "run (s, fs) [Receive a d, Resume (length fs), Resume (length fs), Resume (length fs),
                Resume (length fs)]
     = (snd (handler s a d), fs @ [Handler_done (fst (handler s a d))])"
proof -
  obtain r c where p: "handler_push s a d
      = (r, s\<lparr>debug_log := debug_log s @ [Log_input a d], calls := c\<rparr>)"
    using handler_push_shape by blast
  show ?thesis
    by (cases r)
       (simp_all add: handler_parts p nth_append split_beta split: option.split)
qed

lemma query_send_steps:
  "run (s, fs) [Call_query f msg args kw, Resume (length fs), Resume (length fs), Resume (length fs)]
     = (snd (query_send s f msg args kw),
        fs @ [case fst (query_send s f msg args kw) of
                Inl e \<Rightarrow> Query_done (Inl e)
              | Inr response_address \<Rightarrow> Query_233 msg response_address])"
  by (cases f) (simp_all add: query_send_def cmd_def log_debug_def Let_def nth_append)


lemma query_steps:
  "run (s, fs) [Call_query False msg args kw,
                Resume (length fs), Resume (length fs), Resume (length fs),
                Receive a d,
                Resume (Suc (length fs)), Resume (Suc (length fs)), Resume (Suc (length fs)),
                Resume (Suc (length fs)),
                Resume (length fs), Resume (length fs)]
     = (snd (query s False msg args kw [(a, d)]),
        fs @ [Query_done (fst (query s False msg args kw [(a, d)])),
              Handler_done (fst (handler (snd (query_send s False msg args kw)) a d))])"
proof -
  let ?s1 = "snd (query_send s False msg args kw)"
  let ?n = "length fs"
  let ?q = "Query_233 msg (effective_response_address msg kw)"
  have 1: "run (s, fs) [Call_query False msg args kw, Resume ?n, Resume ?n, Resume ?n]
      = (?s1, fs @ [?q])"
    by (simp only: query_send_steps query_send_result sum.case)
  have 2: "run (?s1, fs @ [?q]) [Receive a d, Resume (Suc ?n), Resume (Suc ?n), Resume (Suc ?n),
                                  Resume (Suc ?n)]
      = (snd (handler ?s1 a d), (fs @ [?q]) @ [Handler_done (fst (handler ?s1 a d))])"
    using handler_steps [of ?s1 "fs @ [?q]" a d] by simp
  have o: "osc_server_events (snd (handler ?s1 a d)) (effective_response_address msg kw)
      = Some (next_event s)"
    using handler_frame [of ?s1 a d] by (simp add: query_send_fields)
  have 3: "run (snd (handler ?s1 a d), (fs @ [?q]) @ [Handler_done (fst (handler ?s1 a d))])
             [Resume ?n, Resume ?n]
      = (snd (query_wait (snd (handler ?s1 a d)) msg (next_event s)),
         fs @ [Query_done (fst (query_wait (snd (handler ?s1 a d)) msg (next_event s))),
               Handler_done (fst (handler ?s1 a d))])"
    by (simp add: nth_append o split_beta list_update_append)
  have r: "run c (xs @ ys) = run (run c xs) ys" for c :: "'a config" and xs ys
    by (induction xs arbitrary: c) simp_all
  have "run (s, fs) ([Call_query False msg args kw, Resume ?n, Resume ?n, Resume ?n]
          @ [Receive a d, Resume (Suc ?n), Resume (Suc ?n), Resume (Suc ?n), Resume (Suc ?n)]
          @ [Resume ?n, Resume ?n])
      = (snd (query_wait (snd (handler ?s1 a d)) msg (next_event s)),
         fs @ [Query_done (fst (query_wait (snd (handler ?s1 a d)) msg (next_event s))),
               Handler_done (fst (handler ?s1 a d))])"
    unfolding r 1 2 3 ..
  then show ?thesis by (simp add: query_unfold)
qed


subsection \<open>One pending slot\<close>




subsection \<open>The steps of handler after the push handlers\<close>

lemma handler_push_ok:
  assumes "\<forall>h\<in>set (registered s a). cb_body h d = None"
  shows "handler_push s a d
     = (Inr (), s\<lparr>debug_log := debug_log s @ [Log_input a d],
                   calls := calls s @ invocations (registered s a) d\<rparr>)"
proof -
  let ?s0 = "s\<lparr>debug_log := debug_log s @ [Log_input a d]\<rparr>"
  have "\<forall>h\<in>set (registered ?s0 a). cb_body h d = None"
    using assms by (simp add: registered_def)
  from push_ok [OF this] show ?thesis
    by (simp add: handler_push_def Let_def log_debug_def registered_def)
qed

lemma handler_not_pending:
  assumes "\<forall>h\<in>set (registered s a). cb_body h d = None"
    and "query_address s \<noteq> Some a"
  shows "handler s a d
     = handler_special (s\<lparr>debug_log := debug_log s @ [Log_input a d],
                           calls := calls s @ invocations (registered s a) d\<rparr>) a d"
  using assms(2) by (auto simp add: handler_parts handler_push_ok [OF assms(1)])

subsection \<open>Correlation and the special addresses\<close>

text \<open>
  Claim C3, as stated, at a concrete input: a zero-argument beat callback is registered and
  a query is pending on \<open>/live/beat\<close>. The message \<open>("/live/beat", [42])\<close> is
  correlated (its arguments are accumulated, the event is signalled), and \<open>handler\<close>
  returns there: the beat callback is not invoked.
\<close>

theorem correlated_beat_skips_callback_counterexample:
  "calls (snd (handler (snd (query_send
       ((init Liblo)\<lparr>beat_callback := Some (Callback 7 (Some 0) None (\<lambda>_. None))\<rparr>)
       False ''/live/beat'' [] None)) ''/live/beat'' [42 :: int])) = []
   \<and> query_rv (snd (handler (snd (query_send
       ((init Liblo)\<lparr>beat_callback := Some (Callback 7 (Some 0) None (\<lambda>_. None))\<rparr>)
       False ''/live/beat'' [] None)) ''/live/beat'' [42 :: int])) = [42]
   \<and> events (snd (handler (snd (query_send
       ((init Liblo)\<lparr>beat_callback := Some (Callback 7 (Some 0) None (\<lambda>_. None))\<rparr>)
       False ''/live/beat'' [] None)) ''/live/beat'' [42 :: int])) 0"
  by (simp add: query_send_def cmd_def handler_def
        init_def log_debug_def call_def effective_response_address_def send_payload_def Let_def)

text \<open>
  Claim C3, amended. Push delivery excludes neither of the other two steps, but the
  correlation step excludes the special addresses. When the push handlers of the address
  return normally: a message at the pending response address has its push handlers
  invoked, its arguments appended and the event stored under that address signalled, and
  nothing else is invoked, also when the address is \<open>/live/beat\<close> or
  \<open>/remix/oscserver/startup\<close> and the callback is set. A message at \<open>/remix/oscserver/startup\<close> that is not at the pending
  response address has its push handlers invoked and then the startup callback called. A
  message at \<open>/live/beat\<close> that is not at the pending response address has its push
  handlers invoked, and then the beat callback is called with no argument when \<open>has_arg\<close>
  is false and with the first argument of the message when \<open>has_arg\<close> is true and the
  message has an argument; when \<open>has_arg\<close> is true and the message has no argument,
  \<open>data[0]\<close> raises \<open>IndexError\<close> and the beat callback is not called, and when the
  inspection of the callback raises, that exception leaves \<open>handler\<close> and the callback is
  not called. When the special callback is not set, and at every other address that is
  not the pending response address, nothing is invoked after the push handlers.
\<close>

theorem dispatch_steps:
  assumes "\<forall>h\<in>set (registered s address). cb_body h data = None"
  shows "(query_address s = Some address \<and> osc_server_events s address = Some ev \<longrightarrow>
            handler s address data
              = (Inr (), s\<lparr>debug_log := debug_log s @ [Log_input address data],
                            calls := calls s @ invocations (registered s address) data,
                            query_rv := query_rv s @ data,
                            events := (events s)(ev := True)\<rparr>))
       \<and> (query_address s \<noteq> Some address \<and> address = ''/live/beat''
            \<and> beat_callback s = Some cb \<and> has_arg cb = Inr False \<longrightarrow>
            handler s address data
              = call (s\<lparr>debug_log := debug_log s @ [Log_input address data],
                         calls := calls s @ invocations (registered s address) data\<rparr>) cb [])
       \<and> (query_address s \<noteq> Some address \<and> address = ''/live/beat''
            \<and> beat_callback s = Some cb \<and> has_arg cb = Inr True \<and> data = x # xs \<longrightarrow>
            handler s address data
              = call (s\<lparr>debug_log := debug_log s @ [Log_input address data],
                         calls := calls s @ invocations (registered s address) data\<rparr>) cb [x])
       \<and> (query_address s \<noteq> Some address \<and> address = ''/live/beat''
            \<and> beat_callback s = Some cb \<and> has_arg cb = Inr True \<and> data = [] \<longrightarrow>
            handler s address data
              = (Inl (Exn IndexError ''list index out of range''),
                 s\<lparr>debug_log := debug_log s @ [Log_input address data],
                   calls := calls s @ invocations (registered s address) data\<rparr>))
       \<and> (query_address s \<noteq> Some address \<and> address = ''/live/beat''
            \<and> beat_callback s = Some cb \<and> has_arg cb = Inl err \<longrightarrow>
            handler s address data
              = (Inl err,
                 s\<lparr>debug_log := debug_log s @ [Log_input address data],
                   calls := calls s @ invocations (registered s address) data\<rparr>))
       \<and> (query_address s \<noteq> Some address \<and> address = ''/remix/oscserver/startup''
            \<and> startup_callback s = Some cb' \<longrightarrow>
            handler s address data
              = call (s\<lparr>debug_log := debug_log s @ [Log_input address data],
                         calls := calls s @ invocations (registered s address) data\<rparr>) cb' [])
       \<and> (query_address s \<noteq> Some address
            \<and> (address = ''/live/beat'' \<and> beat_callback s = None
                \<or> address = ''/remix/oscserver/startup'' \<and> startup_callback s = None
                \<or> address \<noteq> ''/live/beat'' \<and> address \<noteq> ''/remix/oscserver/startup'') \<longrightarrow>
            handler s address data
              = (Inr (),
                 s\<lparr>debug_log := debug_log s @ [Log_input address data],
                   calls := calls s @ invocations (registered s address) data\<rparr>))"
proof -
  let ?s1 = "s\<lparr>debug_log := debug_log s @ [Log_input address data],
                calls := calls s @ invocations (registered s address) data\<rparr>"
  have 1: "handler s address data
              = (Inr (), s\<lparr>debug_log := debug_log s @ [Log_input address data],
                            calls := calls s @ invocations (registered s address) data,
                            query_rv := query_rv s @ data,
                            events := (events s)(ev := True)\<rparr>)"
    if "query_address s = Some address" and "osc_server_events s address = Some ev"
    using assms that by (rule handler_correlated)
  have n: "handler s address data = handler_special ?s1 address data"
    if "query_address s \<noteq> Some address"
    using assms that by (rule handler_not_pending)
  have 2: "handler s address data = call ?s1 cb []"
    if "query_address s \<noteq> Some address" and "address = ''/live/beat''"
      and "beat_callback s = Some cb" and "has_arg cb = Inr False"
    using that n [OF that(1)] by (simp add: handler_special_def)
  have 3: "handler s address data = call ?s1 cb [x]"
    if "query_address s \<noteq> Some address" and "address = ''/live/beat''"
      and "beat_callback s = Some cb" and "has_arg cb = Inr True" and "data = x # xs"
    using that n [OF that(1)] by (simp add: handler_special_def)
  have 4: "handler s address data = (Inl (Exn IndexError ''list index out of range''), ?s1)"
    if "query_address s \<noteq> Some address" and "address = ''/live/beat''"
      and "beat_callback s = Some cb" and "has_arg cb = Inr True" and "data = []"
    using that n [OF that(1)] by (simp add: handler_special_def)
  have 5: "handler s address data = (Inl err, ?s1)"
    if "query_address s \<noteq> Some address" and "address = ''/live/beat''"
      and "beat_callback s = Some cb" and "has_arg cb = Inl err"
    using that n [OF that(1)] by (simp add: handler_special_def)
  have 6: "handler s address data = call ?s1 cb' []"
    if "query_address s \<noteq> Some address" and "address = ''/remix/oscserver/startup''"
      and "startup_callback s = Some cb'"
    using that n [OF that(1)] by (simp add: handler_special_def)
  have 7: "handler s address data = (Inr (), ?s1)"
    if "query_address s \<noteq> Some address"
      and "address = ''/live/beat'' \<and> beat_callback s = None
                \<or> address = ''/remix/oscserver/startup'' \<and> startup_callback s = None
                \<or> address \<noteq> ''/live/beat'' \<and> address \<noteq> ''/remix/oscserver/startup''"
    using that n [OF that(1)] by (auto simp add: handler_special_def)
  show ?thesis
  proof (intro conjI impI)
    assume "query_address s = Some address \<and> osc_server_events s address = Some ev"
    then show "handler s address data
              = (Inr (), s\<lparr>debug_log := debug_log s @ [Log_input address data],
                            calls := calls s @ invocations (registered s address) data,
                            query_rv := query_rv s @ data,
                            events := (events s)(ev := True)\<rparr>)"
      using 1 by blast
  next
    assume "query_address s \<noteq> Some address \<and> address = ''/live/beat''
            \<and> beat_callback s = Some cb \<and> has_arg cb = Inr False"
    then show "handler s address data = call ?s1 cb []" using 2 by blast
  next
    assume "query_address s \<noteq> Some address \<and> address = ''/live/beat''
            \<and> beat_callback s = Some cb \<and> has_arg cb = Inr True \<and> data = x # xs"
    then show "handler s address data = call ?s1 cb [x]" using 3 by blast
  next
    assume "query_address s \<noteq> Some address \<and> address = ''/live/beat''
            \<and> beat_callback s = Some cb \<and> has_arg cb = Inr True \<and> data = []"
    then show "handler s address data
        = (Inl (Exn IndexError ''list index out of range''), ?s1)" using 4 by blast
  next
    assume "query_address s \<noteq> Some address \<and> address = ''/live/beat''
            \<and> beat_callback s = Some cb \<and> has_arg cb = Inl err"
    then show "handler s address data = (Inl err, ?s1)" using 5 by blast
  next
    assume "query_address s \<noteq> Some address \<and> address = ''/remix/oscserver/startup''
            \<and> startup_callback s = Some cb'"
    then show "handler s address data = call ?s1 cb' []" using 6 by blast
  next
    assume "query_address s \<noteq> Some address
            \<and> (address = ''/live/beat'' \<and> beat_callback s = None
                \<or> address = ''/remix/oscserver/startup'' \<and> startup_callback s = None
                \<or> address \<noteq> ''/live/beat'' \<and> address \<noteq> ''/remix/oscserver/startup'')"
    then show "handler s address data = (Inr (), ?s1)" using 7 by blast
  qed
qed

theorem dispatch_steps_witness:
  "handler ((add_handler (init Liblo) ''/live/beat'' (Callback 3 (Some 1) None (\<lambda>_. None)))
              \<lparr>beat_callback := Some (Callback 7 (Some 0) None (\<lambda>_. None))\<rparr>)
      ''/live/beat'' [42 :: int]
     = call ((add_handler (init Liblo) ''/live/beat'' (Callback 3 (Some 1) None (\<lambda>_. None)))
              \<lparr>beat_callback := Some (Callback 7 (Some 0) None (\<lambda>_. None)),
                debug_log := [Log_input ''/live/beat'' [42]], calls := [(3, [42])]\<rparr>)
         (Callback 7 (Some 0) None (\<lambda>_. None)) []"
proof -
  let ?s = "(add_handler (init Liblo) ''/live/beat'' (Callback 3 (Some 1) None (\<lambda>_. None)))
              \<lparr>beat_callback := Some (Callback 7 (Some 0) None (\<lambda>_. None))\<rparr> :: int query_state"
  have a: "\<forall>h\<in>set (registered ?s ''/live/beat''). cb_body h [42] = None"
    by (simp add: registered_def add_handler_def init_def Let_def)
  from dispatch_steps [OF a, where cb = "Callback 7 (Some 0) None (\<lambda>_. None)"
      and ev = 0 and x = 42 and xs = "[]" and cb' = "Callback 7 (Some 0) None (\<lambda>_. None)"
      and err = "Exn TypeError []"]
  show ?thesis
    by (simp add: registered_def invocations_def has_arg_def add_handler_def init_def Let_def)
qed

subsection \<open>The response address\<close>

lemma query_raising_handler:
  assumes "handlers s (effective_response_address msg kw) = Some (pre @ h # post)"
    and "\<forall>p\<in>set pre. cb_body p data = None"
    and "cb_body h data = Some e"
  shows "fst (query s False msg args kw [(effective_response_address msg kw, data)])
     = Inl (Exn LiveConnectionError timeout_message)"
proof -
  let ?ra = "effective_response_address msg kw"
  let ?s1 = "snd (query_send s False msg args kw)"
  have "handlers ?s1 ?ra = Some (pre @ h # post)"
    using assms(1) by (simp add: query_send_fields)
  from handler_raise [OF this assms(2,3)]
  have "events (snd (handler ?s1 ?ra data)) = events ?s1" by simp
  then have "\<not> events (dispatch_all ?s1 [(?ra, data)]) (next_event s)"
    by (simp add: query_send_fields)
  then show ?thesis unfolding query_unfold by (rule query_wait_result)
qed

text \<open>
  Claim C6, as stated, at two concrete inputs. With the override \<open>""\<close>, which differs
  from the request address \<open>/a\<close>, the override is ignored (it is falsy at line 210): an
  inbound message at the request address \<open>/a\<close> resolves the wait and supplies the
  returned arguments. With the override \<open>/b\<close> and a push handler registered for \<open>/b\<close>
  that raises, the inbound message at \<open>/b\<close> does not resolve the wait: the query times
  out.
\<close>

theorem response_address_override_counterexample:
  "fst (query (init Liblo) False ''/a'' [] (Some []) [(''/a'', [1 :: int])]) = Inr [1]
   \<and> fst (query (add_handler (init Liblo) ''/b''
                  (Callback 1 (Some 1) None (\<lambda>_. Some (Exn (OtherError ''ValueError'') ''bad value''))))
             False ''/a'' [] (Some ''/b'') [(''/b'', [2 :: int])])
       = Inl (Exn LiveConnectionError timeout_message)"
  by (simp add: query_def query_send_def query_wait_def cmd_def handler_def add_handler_def
        init_def log_debug_def call_def effective_response_address_def send_payload_def Let_def)

text \<open>
  Claim C6, amended. For a query with a non-empty \<open>response_address\<close> override \<open>b\<close>
  different from the request address \<open>a\<close>: the command is sent to \<open>a\<close>; if the query
  returns a value after one inbound message, that message was at \<open>b\<close> and the value is
  its arguments; an inbound message at \<open>a\<close> does not resolve the wait, nor does any
  sequence of messages none of which is at \<open>b\<close> (the query times out); a message at
  \<open>b\<close> whose push handlers return normally resolves it and supplies the returned
  arguments, and a message at \<open>b\<close> one of whose push handlers raises does not resolve it.
  An empty override is ignored: the query is the one without override, whose response
  address is the request address.
\<close>

theorem response_address_override:
  assumes "b \<noteq> []" and "a \<noteq> b"
  shows "sent (snd (query_send s False a args (Some b)))
           = sent s @ [(a, send_payload (osc_backend s) args)]
       \<and> (fst (query s False a args (Some b) [(addr, data)]) = Inr v \<longrightarrow> addr = b \<and> v = data)
       \<and> fst (query s False a args (Some b) [(a, data)])
           = Inl (Exn LiveConnectionError timeout_message)
       \<and> ((\<forall>m\<in>set inbound. fst m \<noteq> b) \<longrightarrow>
            fst (query s False a args (Some b) inbound)
              = Inl (Exn LiveConnectionError timeout_message))
       \<and> ((\<forall>h\<in>set (registered s b). cb_body h data = None) \<longrightarrow>
            fst (query s False a args (Some b) [(b, data)]) = Inr data)
       \<and> (handlers s b = Some (pre @ h # post) \<and> (\<forall>p\<in>set pre. cb_body p data = None)
            \<and> cb_body h data = Some e \<longrightarrow>
            fst (query s False a args (Some b) [(b, data)])
              = Inl (Exn LiveConnectionError timeout_message))
       \<and> query s f a args (Some []) inbound = query s f a args None inbound"
proof -
  have ra: "effective_response_address a (Some b) = b"
    using assms(1) by (simp add: effective_response_address_def)
  let ?s1 = "snd (query_send s False a args (Some b))"
  have none: "\<And>ms. \<forall>m\<in>set ms. fst m \<noteq> b \<Longrightarrow>
      fst (query s False a args (Some b) ms) = Inl (Exn LiveConnectionError timeout_message)"
    using query_no_reply [of _ a "Some b" s args] by (simp add: ra)
  have only: "addr = b \<and> v = data" if r: "fst (query s False a args (Some b) [(addr, data)]) = Inr v"
  proof -
    let ?s2 = "snd (handler ?s1 addr data)"
    have w: "fst (query_wait ?s2 a (next_event s)) = Inr v"
      using r by (simp add: query_unfold)
    then have set: "events ?s2 (next_event s)"
      by (simp add: query_wait_def split: if_splits)
    have unset: "\<not> events ?s1 (next_event s)"
      by (simp add: query_send_fields)
    from handler_signal [OF set unset]
    have "query_address ?s1 = Some addr" and rv: "query_rv ?s2 = query_rv ?s1 @ data"
      by simp_all
    then have "addr = b" by (simp add: query_send_fields ra)
    moreover from w set have "v = query_rv ?s2" by (simp add: query_wait_def)
    ultimately show ?thesis using rv by (simp add: query_send_fields)
  qed
  have at_a: "fst (query s False a args (Some b) [(a, data)])
      = Inl (Exn LiveConnectionError timeout_message)"
    using assms(2) by (intro none) simp
  have at_b: "fst (query s False a args (Some b) [(b, data)]) = Inr data"
    if "\<forall>h\<in>set (registered s b). cb_body h data = None"
    using that query_reply [of s a "Some b" data args] by (simp add: ra)
  have raising: "fst (query s False a args (Some b) [(b, data)])
      = Inl (Exn LiveConnectionError timeout_message)"
    if "handlers s b = Some (pre @ h # post)" and "\<forall>p\<in>set pre. cb_body p data = None"
      and "cb_body h data = Some e"
    using query_raising_handler [of s a "Some b" pre h post data e args] that by (simp add: ra)
  have empty: "query s f a args (Some []) inbound = query s f a args None inbound"
    by (simp add: query_def query_send_def effective_response_address_def)
  show ?thesis
    using only at_a none at_b raising empty by (simp add: query_send_result)
qed

theorem response_address_override_witness:
  "sent (snd (query_send (init Liblo) False ''/a'' [7 :: int] (Some ''/b''))) = [(''/a'', Args [7])]
   \<and> fst (query (init Liblo) False ''/a'' [7 :: int] (Some ''/b'') [(''/a'', [1])])
       = Inl (Exn LiveConnectionError timeout_message)
   \<and> fst (query (init Liblo) False ''/a'' [7 :: int] (Some ''/b'') [(''/b'', [2])]) = Inr [2]"
proof -
  have h: "''/b'' \<noteq> []" "''/a'' \<noteq> ''/b''" by simp_all
  have r: "\<forall>h\<in>set (registered (init Liblo :: int query_state) ''/b''). cb_body h [2] = None"
    by (simp add: registered_def init_def)
  have i: "sent (init Liblo :: int query_state) = []" "osc_backend (init Liblo :: int query_state) = Liblo"
    by (simp_all add: init_def)
  from response_address_override [OF h, where s = "init Liblo" and args = "[7 :: int]"
      and addr = "''/a''" and data = "[2 :: int]" and inbound = "[(''/a'', [1 :: int])]"] r
  show ?thesis by (simp add: i send_payload_def)
qed

end
